theory Spec2Isabelle
  imports Main "HOL-Library.Sublist"
begin

section \<open>The folder cleaning script of Grafana-as-code\<close>

text \<open>
  The repository is one Python script, \<^verbatim>\<open>scripts/clean_grafana_folders.py\<close>. It reads a
  base URL and a credential, lists the folders of a Grafana server over HTTP and sends a
  DELETE request for every folder of the listing, printing one line per outcome.

  The script is embedded with explicit state passing. Everything it does to the outside is
  appended to a trace of events: what it prints, what it prompts for, and each call of
  \<^verbatim>\<open>requests.get\<close> and \<^verbatim>\<open>requests.delete\<close> with its URL and headers. The HTTP library
  and the server behind it are a parameter, the client, which answers each call and may
  change the remote state while doing so.
\<close>

subsection \<open>Data\<close>

text \<open>
  The headers are a Python dict with two string keys, kept in insertion order. A folder
  of the listing is a JSON object, read as a dict from field names to values; the script
  only formats the values into strings, so they are strings here.
\<close>

type_synonym headers = "(string \<times> string) list"

type_synonym folder = "string \<rightharpoonup> string"

text \<open>
  Exceptions that leave \<^verbatim>\<open>clean_folders\<close>: \<^verbatim>\<open>input\<close> at the end of the input,
  a missing dict key, and any exception of the HTTP library that is not a
  \<^verbatim>\<open>requests.exceptions.RequestException\<close>, which no \<^verbatim>\<open>except\<close> clause of the script names.
\<close>

datatype exn = EOFError | KeyError string | Uncaught string

text \<open>
  What a call into the HTTP library does: it returns, it raises a
  \<^verbatim>\<open>RequestException\<close> (with the text that \<^verbatim>\<open>str(e)\<close> gives), or it raises something else.
\<close>

datatype 'a attempt = Returned 'a | RequestException string | OtherException string

text \<open>
  Of the response to the GET the script calls \<^verbatim>\<open>raise_for_status()\<close> and \<^verbatim>\<open>json()\<close>;
  of the response to a DELETE it reads \<^verbatim>\<open>status_code\<close> and \<^verbatim>\<open>text\<close>.
\<close>

record get_response =
  raise_for_status :: "unit attempt"
  json :: "folder list attempt"

record del_response =
  status_code :: int
  resp_text :: string

record 'w client =
  requests_get :: "string \<Rightarrow> headers \<Rightarrow> 'w \<Rightarrow> get_response attempt \<times> 'w"
  requests_delete :: "string \<Rightarrow> headers \<Rightarrow> 'w \<Rightarrow> del_response attempt \<times> 'w"

datatype event =
    Print string
  | Prompt string
  | Get string headers
  | Delete string headers

record 'w state =
  environ :: "string \<rightharpoonup> string"
  stdin :: "string list"
  trace :: "event list"
  world :: 'w

subsection \<open>Strings\<close>

text \<open>Python's \<^verbatim>\<open>needle in haystack\<close> on strings: the needle occurs at some position.\<close>

fun str_contains :: "string \<Rightarrow> string \<Rightarrow> bool" where
  "str_contains needle [] = (needle = [])"
| "str_contains needle (c # cs) = (prefix needle (c # cs) \<or> str_contains needle cs)"

text \<open>Python's \<^verbatim>\<open>s.endswith(t)\<close>.\<close>

definition endswith :: "string \<Rightarrow> string \<Rightarrow> bool" where
  "endswith s t = suffix t s"

text \<open>How an f-string formats an integer: decimal digits, with a minus sign below zero.\<close>

fun str_nat :: "nat \<Rightarrow> string" where
  "str_nat n =
     (if n < 10 then [''0123456789'' ! n]
      else str_nat (n div 10) @ [''0123456789'' ! (n mod 10)])"

definition str_int :: "int \<Rightarrow> string" where
  "str_int i = (if i < 0 then CHR ''-'' # str_nat (nat (- i)) else str_nat (nat i))"

text \<open>
  Reading decimal notation back, to say what the formatted integers denote: a string of
  digits is read from the left, and a leading minus sign negates.
\<close>

definition digit_value :: "char \<Rightarrow> nat option" where
  "digit_value c =
     map_of [(CHR ''0'', 0), (CHR ''1'', 1), (CHR ''2'', 2), (CHR ''3'', 3), (CHR ''4'', 4),
             (CHR ''5'', 5), (CHR ''6'', 6), (CHR ''7'', 7), (CHR ''8'', 8), (CHR ''9'', 9)] c"

fun read_digits :: "nat \<Rightarrow> string \<Rightarrow> nat option" where
  "read_digits acc [] = Some acc"
| "read_digits acc (c # cs) =
     (case digit_value c of None \<Rightarrow> None | Some d \<Rightarrow> read_digits (10 * acc + d) cs)"

definition read_nat :: "string \<Rightarrow> nat option" where
  "read_nat s = (if s = [] then None else read_digits 0 s)"

definition read_int :: "string \<Rightarrow> int option" where
  "read_int s =
     (case s of
        [] \<Rightarrow> None
      | c # cs \<Rightarrow> if c = CHR ''-'' then map_option (\<lambda>n. - int n) (read_nat cs)
                 else map_option int (read_nat s))"

subsection \<open>Console\<close>

definition print :: "string \<Rightarrow> 'w state \<Rightarrow> 'w state" where
  "print s st = st\<lparr>trace := trace st @ [Print s]\<rparr>"

text \<open>\<^verbatim>\<open>input(prompt)\<close> writes the prompt and reads a line; with no line left it raises.\<close>

definition input :: "string \<Rightarrow> 'w state \<Rightarrow> (exn + string) \<times> 'w state" where
  "input prompt st =
     (case stdin st of
        [] \<Rightarrow> (Inl EOFError, st\<lparr>trace := trace st @ [Prompt prompt]\<rparr>)
      | l # ls \<Rightarrow> (Inr l, st\<lparr>stdin := ls, trace := trace st @ [Prompt prompt]\<rparr>))"

text \<open>
  \<^verbatim>\<open>get_env_var\<close>, lines 5 to 9: the environment variable, or the answer to a prompt when
  the variable is unset or empty.
\<close>

definition get_env_var :: "string \<Rightarrow> string \<Rightarrow> 'w state \<Rightarrow> (exn + string) \<times> 'w state" where
  "get_env_var var_name prompt_text st =
     (case environ st var_name of
        None \<Rightarrow> input (prompt_text @ '': '') st
      | Some v \<Rightarrow> if v = [] then input (prompt_text @ '': '') st else (Inr v, st))"

subsection \<open>\<^verbatim>\<open>clean_folders\<close>\<close>

text \<open>Lines 18 to 21: the headers, built once from the credential.\<close>

definition authorization :: "string \<Rightarrow> string" where
  "authorization grafana_auth =
     (if str_contains ''Basic'' grafana_auth \<or> str_contains ''Bearer'' grafana_auth
      then grafana_auth else ''Bearer '' @ grafana_auth)"

definition make_headers :: "string \<Rightarrow> headers" where
  "make_headers grafana_auth =
     [(''Content-Type'', ''application/json''), (''Authorization'', authorization grafana_auth)]"

text \<open>Lines 24 and 25: one trailing slash is removed.\<close>

definition strip_trailing_slash :: "string \<Rightarrow> string" where
  "strip_trailing_slash grafana_url =
     (if endswith grafana_url ''/'' then butlast grafana_url else grafana_url)"

text \<open>
  Lines 28 to 34: the listing. \<open>Inr None\<close> is the \<^verbatim>\<open>return\<close> of the \<^verbatim>\<open>except\<close> clause,
  \<open>Inr (Some folders)\<close> the listing, \<open>Inl\<close> an exception that the clause does not catch.
\<close>

definition list_folders ::
  "'w client \<Rightarrow> string \<Rightarrow> headers \<Rightarrow> 'w state \<Rightarrow> (exn + folder list option) \<times> 'w state" where
  "list_folders c grafana_url headers st =
     (let url = grafana_url @ ''/api/folders'';
          (a, w) = requests_get c url headers (world st);
          st1 = st\<lparr>trace := trace st @ [Get url headers], world := w\<rparr>
      in case a of
           OtherException e \<Rightarrow> (Inl (Uncaught e), st1)
         | RequestException e \<Rightarrow> (Inr None, print (''Error listing folders: '' @ e) st1)
         | Returned response \<Rightarrow>
             (case raise_for_status response of
                OtherException e \<Rightarrow> (Inl (Uncaught e), st1)
              | RequestException e \<Rightarrow> (Inr None, print (''Error listing folders: '' @ e) st1)
              | Returned _ \<Rightarrow>
                  (case json response of
                     OtherException e \<Rightarrow> (Inl (Uncaught e), st1)
                   | RequestException e \<Rightarrow>
                       (Inr None, print (''Error listing folders: '' @ e) st1)
                   | Returned folders \<Rightarrow> (Inr (Some folders), st1))))"

text \<open>
  Lines 45 to 50: the line printed for the answer to one DELETE call.
\<close>

definition report :: "string \<Rightarrow> del_response attempt \<Rightarrow> exn + string" where
  "report title a =
     (case a of
        Returned del_response \<Rightarrow>
          if status_code del_response = 200 then Inr (''Successfully deleted '' @ title)
          else Inr (''Failed to delete '' @ title @ '': '' @ str_int (status_code del_response)
                    @ '' - '' @ resp_text del_response)
      | RequestException e \<Rightarrow> Inr (''Error deleting folder '' @ title @ '': '' @ e)
      | OtherException e \<Rightarrow> Inl (Uncaught e))"

text \<open>
  Lines 39 to 50, the body of the loop for one folder. The two field reads come before
  the \<^verbatim>\<open>try\<close>, so a missing field raises a \<^verbatim>\<open>KeyError\<close> that nothing catches.
\<close>

definition delete_folder ::
  "'w client \<Rightarrow> string \<Rightarrow> headers \<Rightarrow> folder \<Rightarrow> 'w state \<Rightarrow> (exn + unit) \<times> 'w state" where
  "delete_folder c grafana_url headers folder st =
     (case folder ''uid'' of
        None \<Rightarrow> (Inl (KeyError ''uid''), st)
      | Some uid \<Rightarrow>
     (case folder ''title'' of
        None \<Rightarrow> (Inl (KeyError ''title''), st)
      | Some title \<Rightarrow>
     (let st1 = print (''Deleting folder: '' @ title @ '' (uid: '' @ uid @ '') ...'') st;
          url = grafana_url @ ''/api/folders/'' @ uid;
          (a, w) = requests_delete c url headers (world st1);
          st2 = st1\<lparr>trace := trace st1 @ [Delete url headers], world := w\<rparr>
      in case report title a of
           Inl e \<Rightarrow> (Inl e, st2)
         | Inr line \<Rightarrow> (Inr (), print line st2))))"

text \<open>Line 38: the loop over the listing, in the order of the listing.\<close>

fun delete_loop ::
  "'w client \<Rightarrow> string \<Rightarrow> headers \<Rightarrow> folder list \<Rightarrow> 'w state \<Rightarrow> (exn + unit) \<times> 'w state" where
  "delete_loop c grafana_url headers [] st = (Inr (), st)"
| "delete_loop c grafana_url headers (folder # rest) st =
     (case delete_folder c grafana_url headers folder st of
        (Inl e, st1) \<Rightarrow> (Inl e, st1)
      | (Inr _, st1) \<Rightarrow> delete_loop c grafana_url headers rest st1)"

text \<open>Lines 27 to 50: what the script does once the URL and the headers are fixed.\<close>

definition list_and_delete ::
  "'w client \<Rightarrow> string \<Rightarrow> headers \<Rightarrow> 'w state \<Rightarrow> (exn + unit) \<times> 'w state" where
  "list_and_delete c grafana_url headers st =
     (case list_folders c grafana_url headers st of
        (Inl e, st1) \<Rightarrow> (Inl e, st1)
      | (Inr None, st1) \<Rightarrow> (Inr (), st1)
      | (Inr (Some folders), st1) \<Rightarrow>
          delete_loop c grafana_url headers folders
            (print (''Found '' @ str_nat (length folders) @ '' folders.'') st1))"

text \<open>
  Lines 12 to 16: the banner and the two settings. An \<^verbatim>\<open>EOFError\<close> of a prompt is not
  caught.
\<close>

definition read_settings :: "'w state \<Rightarrow> (exn + string \<times> string) \<times> 'w state" where
  "read_settings st =
     (let st1 = print ''WARNING: This script will delete ALL folders in Grafana except 'General'.'' st;
          st2 = print ''Ensure you have a backup or can recreate them via Terraform.'' st1
      in case get_env_var ''GRAFANA_URL'' ''Enter Grafana URL (e.g. http://localhost:3000)'' st2 of
           (Inl e, st3) \<Rightarrow> (Inl e, st3)
         | (Inr grafana_url, st3) \<Rightarrow>
      (case get_env_var ''GRAFANA_AUTH''
              ''Enter Grafana Auth (Basic username:password or Bearer token)'' st3 of
           (Inl e, st4) \<Rightarrow> (Inl e, st4)
         | (Inr grafana_auth, st4) \<Rightarrow> (Inr (grafana_url, grafana_auth), st4)))"

text \<open>Lines 11 to 50, the whole of \<^verbatim>\<open>clean_folders\<close>.\<close>

definition clean_folders :: "'w client \<Rightarrow> 'w state \<Rightarrow> (exn + unit) \<times> 'w state" where
  "clean_folders c st =
     (case read_settings st of
        (Inl e, st1) \<Rightarrow> (Inl e, st1)
      | (Inr (grafana_url, grafana_auth), st1) \<Rightarrow>
          list_and_delete c (strip_trailing_slash grafana_url) (make_headers grafana_auth) st1)"

subsection \<open>Observations on a run\<close>

text \<open>The events a run added to the trace, and the DELETE calls among some events.\<close>

definition emitted :: "'w state \<Rightarrow> 'w state \<Rightarrow> event list" where
  "emitted st st' = drop (length (trace st)) (trace st')"

fun delete_urls :: "event list \<Rightarrow> string list" where
  "delete_urls [] = []"
| "delete_urls (Delete url h # es) = url # delete_urls es"
| "delete_urls (e # es) = delete_urls es"

fun request_headers :: "event list \<Rightarrow> headers list" where
  "request_headers [] = []"
| "request_headers (Get url h # es) = h # request_headers es"
| "request_headers (Delete url h # es) = h # request_headers es"
| "request_headers (e # es) = request_headers es"

fun request_urls :: "event list \<Rightarrow> string list" where
  "request_urls [] = []"
| "request_urls (Get url h # es) = url # request_urls es"
| "request_urls (Delete url h # es) = url # request_urls es"
| "request_urls (e # es) = request_urls es"

subsection \<open>A scripted server for concrete runs\<close>

text \<open>
  A client that answers every GET with one fixed result and every DELETE by the URL
  asked for; its remote state counts the calls it served.
\<close>

definition scripted_client ::
  "get_response attempt \<Rightarrow> (string \<Rightarrow> del_response attempt) \<Rightarrow> nat client" where
  "scripted_client listing answer =
     \<lparr>requests_get = (\<lambda>url h w. (listing, Suc w)),
      requests_delete = (\<lambda>url h w. (answer url, Suc w))\<rparr>"

text \<open>
  A client whose answer to a DELETE depends on its state, the number of calls it has
  served, and not on the URL.
\<close>

definition sequenced_client ::
  "get_response attempt \<Rightarrow> (nat \<Rightarrow> del_response attempt) \<Rightarrow> nat client" where
  "sequenced_client listing answer =
     \<lparr>requests_get = (\<lambda>url h w. (listing, Suc w)),
      requests_delete = (\<lambda>url h w. (answer w, Suc w))\<rparr>"

definition listing_of :: "folder list \<Rightarrow> get_response attempt" where
  "listing_of folders = Returned \<lparr>raise_for_status = Returned (), json = Returned folders\<rparr>"

definition folder_of :: "string \<Rightarrow> string \<Rightarrow> folder" where
  "folder_of uid title = [''uid'' \<mapsto> uid, ''title'' \<mapsto> title]"

definition status :: "int \<Rightarrow> string \<Rightarrow> del_response attempt" where
  "status code body = Returned \<lparr>status_code = code, resp_text = body\<rparr>"

text \<open>A start state with both settings in the environment and nothing typed.\<close>

definition configured :: "string \<Rightarrow> string \<Rightarrow> nat state" where
  "configured url auth =
     \<lparr>environ = [''GRAFANA_URL'' \<mapsto> url, ''GRAFANA_AUTH'' \<mapsto> auth],
      stdin = [], trace = [], world = 0\<rparr>"

section \<open>Facts about the embedding\<close>

subsection \<open>Strings and traces\<close>

lemma str_contains_iff: "str_contains needle hay \<longleftrightarrow> sublist needle hay"
  by (induction hay) (auto simp: sublist_Cons_right)

text \<open>The formatted integer reads back as the integer: \<^verbatim>\<open>str\<close> writes decimal notation.\<close>

lemma digit_value_nth: "d < 10 \<Longrightarrow> digit_value (''0123456789'' ! d) = Some d"
proof -
  assume "d < 10"
  then have "d \<in> {0, 1, 2, 3, 4, 5, 6, 7, 8, 9}" by auto
  then show ?thesis by (auto simp: digit_value_def)
qed

lemma read_digits_snoc:
  "read_digits acc (cs @ [c]) =
     (case read_digits acc cs of
        None \<Rightarrow> None
      | Some v \<Rightarrow> (case digit_value c of None \<Rightarrow> None | Some d \<Rightarrow> Some (10 * v + d)))"
  by (induction cs arbitrary: acc) (auto split: option.splits)

lemma str_nat_nonempty: "str_nat n \<noteq> []"
  by (subst str_nat.simps) (simp del: str_nat.simps)

lemma read_digits_str_nat: "read_digits 0 (str_nat n) = Some n"
proof (induction n rule: str_nat.induct)
  case (1 n)
  show ?case
  proof (cases "n < 10")
    case True
    then have "str_nat n = [''0123456789'' ! n]"
      by (subst str_nat.simps) (simp del: str_nat.simps)
    then show ?thesis using True by (simp add: digit_value_nth del: str_nat.simps)
  next
    case False
    then have s: "str_nat n = str_nat (n div 10) @ [''0123456789'' ! (n mod 10)]"
      by (subst str_nat.simps) (simp del: str_nat.simps)
    have "read_digits 0 (str_nat (n div 10)) = Some (n div 10)"
      using "1.IH" False by (simp del: str_nat.simps)
    then show ?thesis
      unfolding s by (simp add: read_digits_snoc digit_value_nth del: str_nat.simps)
  qed
qed

lemma read_nat_str_nat: "read_nat (str_nat n) = Some n"
  by (simp add: read_nat_def str_nat_nonempty read_digits_str_nat del: str_nat.simps)

lemma str_nat_no_sign: "hd (str_nat n) \<noteq> CHR ''-''"
proof (induction n rule: str_nat.induct)
  case (1 n)
  show ?case
  proof (cases "n < 10")
    case True
    then have "n \<in> {0, 1, 2, 3, 4, 5, 6, 7, 8, 9}" by auto
    moreover have "str_nat n = [''0123456789'' ! n]"
      using True by (subst str_nat.simps) (simp del: str_nat.simps)
    ultimately show ?thesis by (auto simp del: str_nat.simps)
  next
    case False
    then have s: "str_nat n = str_nat (n div 10) @ [''0123456789'' ! (n mod 10)]"
      by (subst str_nat.simps) (simp del: str_nat.simps)
    show ?thesis
      unfolding s using "1.IH" False by (simp add: str_nat_nonempty del: str_nat.simps)
  qed
qed

lemma read_int_str_int: "read_int (str_int i) = Some i"
proof (cases "i < 0")
  case True
  then show ?thesis
    by (simp add: read_int_def str_int_def read_nat_str_nat del: str_nat.simps)
next
  case False
  obtain c cs where s: "str_nat (nat i) = c # cs"
    using str_nat_nonempty [of "nat i"] by (cases "str_nat (nat i)") (auto simp del: str_nat.simps)
  have "c \<noteq> CHR ''-''"
    using str_nat_no_sign [of "nat i"] s by (simp del: str_nat.simps)
  moreover have "read_nat (c # cs) = Some (nat i)"
    using read_nat_str_nat [of "nat i"] s by (simp del: str_nat.simps)
  ultimately show ?thesis
    using False s by (simp add: read_int_def str_int_def del: str_nat.simps)
qed

lemma delete_urls_append: "delete_urls (xs @ ys) = delete_urls xs @ delete_urls ys"
  by (induction xs rule: delete_urls.induct) simp_all

lemma request_headers_append: "request_headers (xs @ ys) = request_headers xs @ request_headers ys"
  by (induction xs rule: request_headers.induct) simp_all

lemma request_urls_append: "request_urls (xs @ ys) = request_urls xs @ request_urls ys"
  by (induction xs rule: request_urls.induct) simp_all

lemma emitted_eq: "trace st' = trace st @ es \<Longrightarrow> emitted st st' = es"
  by (simp add: emitted_def)

subsection \<open>What each part of the script adds to the trace\<close>

lemma input_trace: "trace (snd (input p st)) = trace st @ [Prompt p]"
  by (simp add: input_def split: list.splits)

lemma input_world: "world (snd (input p st)) = world st"
  by (simp add: input_def split: list.splits)

lemma get_env_var_trace:
  "\<exists>es. trace (snd (get_env_var v p st)) = trace st @ es \<and> request_urls es = [] \<and> request_headers es = [] \<and> delete_urls es = []"
  by (simp add: get_env_var_def input_trace split: option.splits)

lemma read_settings_trace:
  "\<exists>es. trace (snd (read_settings st)) = trace st @ es \<and> request_urls es = [] \<and> request_headers es = [] \<and> delete_urls es = []"
proof -
  let ?st2 = "print ''Ensure you have a backup or can recreate them via Terraform.''
     (print ''WARNING: This script will delete ALL folders in Grafana except 'General'.'' st)"
  let ?g1 = "get_env_var ''GRAFANA_URL'' ''Enter Grafana URL (e.g. http://localhost:3000)'' ?st2"
  obtain es1 where 1: "trace (snd ?g1) = trace ?st2 @ es1" "request_urls es1 = []" "request_headers es1 = []" "delete_urls es1 = []"
    using get_env_var_trace by blast
  let ?g2 = "get_env_var ''GRAFANA_AUTH'' ''Enter Grafana Auth (Basic username:password or Bearer token)'' (snd ?g1)"
  obtain es2 where 2: "trace (snd ?g2) = trace (snd ?g1) @ es2" "request_urls es2 = []" "request_headers es2 = []" "delete_urls es2 = []"
    using get_env_var_trace by blast
  have tr2: "trace ?st2 = trace st @ [Print ''WARNING: This script will delete ALL folders in Grafana except 'General'.'', Print ''Ensure you have a backup or can recreate them via Terraform.'']"
    by (simp add: print_def)
  have "snd (read_settings st) = snd ?g1 \<or> snd (read_settings st) = snd ?g2"
    by (simp add: read_settings_def Let_def split: prod.splits sum.splits)
  then show ?thesis
  proof
    assume "snd (read_settings st) = snd ?g1"
    then show ?thesis using 1 tr2
      by (simp add: request_urls_append request_headers_append delete_urls_append)
  next
    assume "snd (read_settings st) = snd ?g2"
    then show ?thesis using 1 2 tr2
      by (simp add: request_urls_append request_headers_append delete_urls_append)
  qed
qed

lemma list_folders_trace:
  "\<exists>es. trace (snd (list_folders c b h st)) = trace st @ Get (b @ ''/api/folders'') h # es
      \<and> request_urls es = [] \<and> request_headers es = [] \<and> delete_urls es = []"
  by (simp add: list_folders_def Let_def print_def split: prod.splits attempt.splits)

lemma delete_folder_trace:
  "\<exists>es. trace (snd (delete_folder c b h f st)) = trace st @ es
      \<and> set (request_headers es) \<subseteq> {h}
      \<and> (\<forall>u \<in> set (request_urls es). prefix (b @ ''/api/folders'') u)"
  by (simp add: delete_folder_def Let_def print_def split: prod.splits option.splits sum.splits)

lemma delete_loop_trace:
  "\<exists>es. trace (snd (delete_loop c b h fs st)) = trace st @ es
      \<and> set (request_headers es) \<subseteq> {h}
      \<and> (\<forall>u \<in> set (request_urls es). prefix (b @ ''/api/folders'') u)"
proof (induction fs arbitrary: st)
  case Nil
  show ?case by simp
next
  case (Cons f fs)
  obtain r st1 where step: "delete_folder c b h f st = (r, st1)"
    by (cases "delete_folder c b h f st")
  obtain es1 where 1: "trace st1 = trace st @ es1" "set (request_headers es1) \<subseteq> {h}"
      "\<forall>u \<in> set (request_urls es1). prefix (b @ ''/api/folders'') u"
    using delete_folder_trace [of c b h f st] step by auto
  show ?case
  proof (cases r)
    case (Inl e)
    with step 1 show ?thesis by simp
  next
    case (Inr u)
    obtain es2 where 2: "trace (snd (delete_loop c b h fs st1)) = trace st1 @ es2"
        "set (request_headers es2) \<subseteq> {h}"
        "\<forall>u \<in> set (request_urls es2). prefix (b @ ''/api/folders'') u"
      using Cons.IH [of st1] by blast
    have "trace (snd (delete_loop c b h (f # fs) st)) = trace st @ (es1 @ es2)"
      using step Inr 1 2 by simp
    moreover have "set (request_headers (es1 @ es2)) \<subseteq> {h}"
      using 1 2 by (simp add: request_headers_append)
    moreover have "\<forall>u \<in> set (request_urls (es1 @ es2)). prefix (b @ ''/api/folders'') u"
      using 1 2 by (auto simp: request_urls_append)
    ultimately show ?thesis by blast
  qed
qed

lemma list_and_delete_trace:
  "\<exists>es. trace (snd (list_and_delete c b h st)) = trace st @ Get (b @ ''/api/folders'') h # es
      \<and> set (request_headers es) \<subseteq> {h}
      \<and> (\<forall>u \<in> set (request_urls es). prefix (b @ ''/api/folders'') u)"
proof -
  obtain r st1 where l: "list_folders c b h st = (r, st1)"
    by (cases "list_folders c b h st")
  obtain es1 where 1: "trace st1 = trace st @ Get (b @ ''/api/folders'') h # es1"
      "request_urls es1 = []" "request_headers es1 = []"
    using list_folders_trace [of c b h st] l by auto
  show ?thesis
  proof (cases r)
    case (Inl e)
    with l 1 show ?thesis by (simp add: list_and_delete_def)
  next
    case (Inr res)
    show ?thesis
    proof (cases res)
      case None
      with Inr l 1 show ?thesis by (simp add: list_and_delete_def)
    next
      case (Some folders)
      let ?st2 = "print (''Found '' @ str_nat (length folders) @ '' folders.'') st1"
      obtain es2 where 2: "trace (snd (delete_loop c b h folders ?st2)) = trace ?st2 @ es2"
          "set (request_headers es2) \<subseteq> {h}"
          "\<forall>u \<in> set (request_urls es2). prefix (b @ ''/api/folders'') u"
        using delete_loop_trace [of c b h folders ?st2] by blast
      let ?es = "es1 @ Print (''Found '' @ str_nat (length folders) @ '' folders.'') # es2"
      have "trace (snd (list_and_delete c b h st)) = trace st @ Get (b @ ''/api/folders'') h # ?es"
        using l Inr Some 1 2 by (simp add: list_and_delete_def print_def)
      moreover have "set (request_headers ?es) \<subseteq> {h}"
        using 1 2 by (simp add: request_headers_append)
      moreover have "\<forall>u \<in> set (request_urls ?es). prefix (b @ ''/api/folders'') u"
        using 1 2 by (simp add: request_urls_append)
      ultimately show ?thesis by blast
    qed
  qed
qed

lemma clean_folders_settings:
  "read_settings st = (Inr (grafana_url, grafana_auth), st1) \<Longrightarrow>
   clean_folders c st =
     list_and_delete c (strip_trailing_slash grafana_url) (make_headers grafana_auth) st1"
  by (simp add: clean_folders_def)

lemma clean_folders_requests:
  assumes "read_settings st = (Inr (grafana_url, grafana_auth), st1)"
  shows "\<exists>es. request_headers (emitted st (snd (clean_folders c st))) = make_headers grafana_auth # request_headers es
      \<and> request_urls (emitted st (snd (clean_folders c st))) = (strip_trailing_slash grafana_url @ ''/api/folders'') # request_urls es
      \<and> set (request_headers es) \<subseteq> {make_headers grafana_auth}
      \<and> (\<forall>u \<in> set (request_urls es). prefix (strip_trailing_slash grafana_url @ ''/api/folders'') u)"
proof -
  let ?b = "strip_trailing_slash grafana_url" and ?h = "make_headers grafana_auth"
  obtain es0 where 0: "trace st1 = trace st @ es0" "request_urls es0 = []" "request_headers es0 = []"
    using read_settings_trace [of st] assms by auto
  obtain es where 1: "trace (snd (list_and_delete c ?b ?h st1)) = trace st1 @ Get (?b @ ''/api/folders'') ?h # es"
      "set (request_headers es) \<subseteq> {?h}"
      "\<forall>u \<in> set (request_urls es). prefix (?b @ ''/api/folders'') u"
    using list_and_delete_trace [of c ?b ?h st1] by blast
  have "emitted st (snd (clean_folders c st)) = es0 @ Get (?b @ ''/api/folders'') ?h # es"
    using 0 1 by (simp add: clean_folders_settings [OF assms] emitted_eq)
  with 0 1 show ?thesis
    by (auto simp: request_headers_append request_urls_append)
qed

subsection \<open>The loop\<close>

lemma delete_folder_step:
  assumes "folder ''uid'' = Some uid" and "folder ''title'' = Some title"
    and "requests_delete c (b @ ''/api/folders/'' @ uid) h (world st) = (a, w)"
    and "report title a = Inr line"
  shows "delete_folder c b h folder st =
           (Inr (), st\<lparr>trace := trace st @
              [Print (''Deleting folder: '' @ title @ '' (uid: '' @ uid @ '') ...''),
               Delete (b @ ''/api/folders/'' @ uid) h, Print line], world := w\<rparr>)"
  using assms by (simp add: delete_folder_def print_def)

lemma delete_loop_append:
  "delete_loop c b h (xs @ ys) st =
     (case delete_loop c b h xs st of
        (Inl e, st1) \<Rightarrow> (Inl e, st1)
      | (Inr _, st1) \<Rightarrow> delete_loop c b h ys st1)"
  by (induction xs arbitrary: st) (auto split: prod.splits sum.splits)

lemma delete_folder_key_error:
  "folder ''uid'' = None \<or> folder ''title'' = None \<Longrightarrow>
   delete_folder c b h folder st =
     (Inl (KeyError (if folder ''uid'' = None then ''uid'' else ''title'')), st)"
  by (auto simp: delete_folder_def)

lemma delete_loop_reached:
  assumes fields: "map (\<lambda>f. (f ''uid'', f ''title'')) folders
                     = map (\<lambda>(uid, title). (Some uid, Some title)) items"
    and len_answers: "length answers = length items"
    and len_worlds: "length worlds = Suc (length items)"
    and len_lines: "length lines = length items"
    and start: "worlds ! 0 = world st"
    and calls: "\<forall>i < length items.
                  requests_delete c (b @ ''/api/folders/'' @ fst (items ! i)) h (worlds ! i)
                    = (answers ! i, worlds ! Suc i)"
    and reports: "\<forall>i < length items. report (snd (items ! i)) (answers ! i) = Inr (lines ! i)"
  shows "fst (delete_loop c b h folders st) = Inr ()
       \<and> trace (snd (delete_loop c b h folders st)) = trace st @ concat (map (\<lambda>((uid, title), line).
             [Print (''Deleting folder: '' @ title @ '' (uid: '' @ uid @ '') ...''),
              Delete (b @ ''/api/folders/'' @ uid) h,
              Print line]) (zip items lines))
       \<and> world (snd (delete_loop c b h folders st)) = worlds ! length items"
  using assms
proof (induction items arbitrary: folders st answers worlds lines)
  case Nil
  then show ?case by simp
next
  case (Cons item items)
  obtain uid title where item: "item = (uid, title)" by (cases item)
  obtain f fs where folders: "folders = f # fs" and f: "f ''uid'' = Some uid" "f ''title'' = Some title"
    and fs: "map (\<lambda>f. (f ''uid'', f ''title'')) fs = map (\<lambda>(uid, title). (Some uid, Some title)) items"
    using Cons.prems(1) item by (cases folders) auto
  obtain a as where answers: "answers = a # as" and len_as: "length as = length items"
    using Cons.prems(2) by (cases answers) auto
  obtain l ls where lines: "lines = l # ls" and len_ls: "length ls = length items"
    using Cons.prems(4) by (cases lines) auto
  obtain w0 ws0 where worlds0: "worlds = w0 # ws0" and len_ws0: "length ws0 = Suc (length items)"
    using Cons.prems(3) by (cases worlds) auto
  obtain w1 ws where ws0: "ws0 = w1 # ws"
    using len_ws0 by (cases ws0) auto
  have w0: "w0 = world st"
    using Cons.prems(5) worlds0 by simp
  have first: "0 < length (item # items)"
    by simp
  then have "requests_delete c (b @ ''/api/folders/'' @ fst ((item # items) ! 0)) h (worlds ! 0)
          = (answers ! 0, worlds ! Suc 0)"
    using Cons.prems(6) by blast
  then have call: "requests_delete c (b @ ''/api/folders/'' @ uid) h (world st) = (a, w1)"
    by (simp add: item answers worlds0 ws0 w0)
  have "report (snd ((item # items) ! 0)) (answers ! 0) = Inr (lines ! 0)"
    using first Cons.prems(7) by blast
  then have rep: "report title a = Inr l"
    by (simp add: item answers lines)
  let ?st1 = "st\<lparr>trace := trace st @
              [Print (''Deleting folder: '' @ title @ '' (uid: '' @ uid @ '') ...''),
               Delete (b @ ''/api/folders/'' @ uid) h, Print l], world := w1\<rparr>"
  have step: "delete_folder c b h f st = (Inr (), ?st1)"
    using f call rep by (rule delete_folder_step)
  have len_ws1: "length (w1 # ws) = Suc (length items)"
    using len_ws0 ws0 by simp
  have start1: "(w1 # ws) ! 0 = world ?st1"
    by simp
  have calls1: "\<forall>i < length items.
                  requests_delete c (b @ ''/api/folders/'' @ fst (items ! i)) h ((w1 # ws) ! i)
                    = (as ! i, (w1 # ws) ! Suc i)"
  proof (intro allI impI)
    fix i assume "i < length items"
    then have "Suc i < length (item # items)" by simp
    then have "requests_delete c (b @ ''/api/folders/'' @ fst ((item # items) ! Suc i)) h (worlds ! Suc i)
                 = (answers ! Suc i, worlds ! Suc (Suc i))"
      using Cons.prems(6) by blast
    then show "requests_delete c (b @ ''/api/folders/'' @ fst (items ! i)) h ((w1 # ws) ! i)
                    = (as ! i, (w1 # ws) ! Suc i)"
      by (simp add: answers worlds0 ws0)
  qed
  have reports1: "\<forall>i < length items. report (snd (items ! i)) (as ! i) = Inr (ls ! i)"
  proof (intro allI impI)
    fix i assume "i < length items"
    then have "Suc i < length (item # items)" by simp
    then have "report (snd ((item # items) ! Suc i)) (answers ! Suc i) = Inr (lines ! Suc i)"
      using Cons.prems(7) by blast
    then show "report (snd (items ! i)) (as ! i) = Inr (ls ! i)"
      by (simp add: answers lines)
  qed
  have IH: "fst (delete_loop c b h fs ?st1) = Inr ()
       \<and> trace (snd (delete_loop c b h fs ?st1)) = trace ?st1 @ concat (map (\<lambda>((uid, title), line).
             [Print (''Deleting folder: '' @ title @ '' (uid: '' @ uid @ '') ...''),
              Delete (b @ ''/api/folders/'' @ uid) h,
              Print line]) (zip items ls))
       \<and> world (snd (delete_loop c b h fs ?st1)) = (w1 # ws) ! length items"
    using fs len_as len_ws1 len_ls start1 calls1 reports1 by (rule Cons.IH)
  have loop: "delete_loop c b h folders st = delete_loop c b h fs ?st1"
    using step by (simp add: folders)
  show ?case
    unfolding loop using IH by (simp add: item lines worlds0 ws0)
qed

text \<open>The equations that unfold the script on a concrete run.\<close>

lemmas run_simps = clean_folders_def read_settings_def list_and_delete_def list_folders_def
  delete_folder_def report_def get_env_var_def input_def print_def make_headers_def
  authorization_def strip_trailing_slash_def endswith_def suffix_to_prefix
  scripted_client_def sequenced_client_def listing_of_def folder_of_def status_def configured_def emitted_def str_int_def

section \<open>The claims of the specification\<close>

subsection \<open>C1\<close>

text \<open>
  Claim C1: a folder named "General" is never the target of a DELETE call, wherever it
  stands in the listing. The banner of the script promises as much, but the loop of lines
  38 to 50 has no test on the title. On the listing of a folder \<^verbatim>\<open>b2\<close> followed by the
  folder \<^verbatim>\<open>a1\<close> named "General", with every DELETE answered 200, the script sends a
  DELETE for both, the second for "General".
\<close>

theorem general_folder_is_deleted:
  "delete_urls (trace (snd (clean_folders
      (scripted_client (listing_of [folder_of ''b2'' ''Team Dashboards'', folder_of ''a1'' ''General''])
         (\<lambda>url. status 200 ''{}''))
      (configured ''http://grafana:3000'' ''glsa_1''))))
   = [''http://grafana:3000/api/folders/b2'', ''http://grafana:3000/api/folders/a1'']"
  by (simp add: run_simps)

subsection \<open>C2\<close>

text \<open>
  Claim C2: with N entries left after "General" is set aside, there are exactly N delete
  attempts and N outcomes, in the order of the listing. The loop attempts every entry of the
  listing, so a listing with "General" and two other folders gets three attempts where the
  claim counts two. This is the missing test on the title again.
\<close>

theorem general_counted_among_attempts:
  "delete_urls (trace (snd (clean_folders
      (scripted_client
         (listing_of [folder_of ''a1'' ''General'', folder_of ''b2'' ''Team Dashboards'',
                      folder_of ''c3'' ''Alerts''])
         (\<lambda>url. status 200 ''{}''))
      (configured ''http://grafana:3000/'' ''Bearer glsa_1''))))
   = [''http://grafana:3000/api/folders/a1'', ''http://grafana:3000/api/folders/b2'',
      ''http://grafana:3000/api/folders/c3'']"
  by (simp add: run_simps)

subsection \<open>C3\<close>

text \<open>
  Claim C3: when the call that lists the folders fails, by an exception of the transport,
  by the HTTP status, or while the body is decoded, the script prints the one error line and
  returns; no DELETE call is made and nothing of a batch is printed. The settings may come
  from the environment or from the prompts: \<open>st1\<close> is the state once they are read.
\<close>

theorem listing_failure_aborts:
  assumes settings: "read_settings st = (Inr (grafana_url, grafana_auth), st1)"
    and call: "requests_get c (strip_trailing_slash grafana_url @ ''/api/folders'')
                 (make_headers grafana_auth) (world st1) = (a, w)"
    and fails: "a = RequestException e
                \<or> (\<exists>r. a = Returned r \<and> raise_for_status r = RequestException e)
                \<or> (\<exists>r. a = Returned r \<and> raise_for_status r = Returned ()
                         \<and> json r = RequestException e)"
  shows "clean_folders c st =
           (Inr (), st1\<lparr>trace := trace st1 @
               [Get (strip_trailing_slash grafana_url @ ''/api/folders'') (make_headers grafana_auth),
                Print (''Error listing folders: '' @ e)], world := w\<rparr>)
       \<and> delete_urls (emitted st (snd (clean_folders c st))) = []"
proof -
  let ?b = "strip_trailing_slash grafana_url" and ?h = "make_headers grafana_auth"
  let ?st2 = "st1\<lparr>trace := trace st1 @ [Get (?b @ ''/api/folders'') ?h,
                Print (''Error listing folders: '' @ e)], world := w\<rparr>"
  have "list_folders c ?b ?h st1 = (Inr None, ?st2)"
    using call fails by (auto simp: list_folders_def print_def)
  then have run: "clean_folders c st = (Inr (), ?st2)"
    by (simp add: clean_folders_settings [OF settings] list_and_delete_def)
  obtain es0 where 0: "trace st1 = trace st @ es0" "delete_urls es0 = []"
    using read_settings_trace [of st] settings by auto
  have "emitted st ?st2 = es0 @ [Get (?b @ ''/api/folders'') ?h, Print (''Error listing folders: '' @ e)]"
    using 0 by (simp add: emitted_eq)
  then have "delete_urls (emitted st ?st2) = []"
    using 0 by (simp add: delete_urls_append)
  with run show ?thesis by simp
qed

text \<open>A concrete run for C3.\<close>

theorem listing_failure_aborts_witness:
  "fst (clean_folders (scripted_client (RequestException ''connection refused'') (\<lambda>url. status 200 ''''))
          (configured ''http://grafana:3000/'' ''glsa_1'')) = Inr ()
   \<and> drop 2 (trace (snd (clean_folders (scripted_client (RequestException ''connection refused'') (\<lambda>url. status 200 ''''))
          (configured ''http://grafana:3000/'' ''glsa_1''))))
      = [Get ''http://grafana:3000/api/folders''
           [(''Content-Type'', ''application/json''), (''Authorization'', ''Bearer glsa_1'')],
         Print ''Error listing folders: connection refused'']"
proof -
  let ?c = "scripted_client (RequestException ''connection refused'') (\<lambda>url. status 200 '''')"
  let ?st = "configured ''http://grafana:3000/'' ''glsa_1''"
  have settings: "read_settings ?st = (Inr (''http://grafana:3000/'', ''glsa_1''), snd (read_settings ?st))"
    by (simp add: run_simps)
  have call: "requests_get ?c (strip_trailing_slash ''http://grafana:3000/'' @ ''/api/folders'')
                (make_headers ''glsa_1'') (world (snd (read_settings ?st)))
                = (RequestException ''connection refused'', 1)"
    by (simp add: run_simps)
  show ?thesis
    using listing_failure_aborts [OF settings call, of "''connection refused''"]
    by (simp add: read_settings_def get_env_var_def print_def configured_def make_headers_def
        authorization_def strip_trailing_slash_def endswith_def suffix_to_prefix)
qed

subsection \<open>C4\<close>

text \<open>
  Claim C4: when the DELETE for one folder R fails, by a status other than 200 or by a
  \<^verbatim>\<open>RequestException\<close>, and succeeds for every other folder, the loop runs to the end
  without raising: every folder of the listing gets its announcement, its DELETE call and its
  line, R the line with the detail and every other one the success line, in the order of
  the listing. R is the entry at position \<open>k\<close>. The answers are those that the client
  gives in this run: \<open>worlds\<close> are the remote states that the run goes through, from
  the one it starts in, and \<open>answers ! i\<close> is the answer to the call for entry \<open>i\<close> in
  the state reached then. The entries of the listing are folders, each with its uid and
  title (\<open>items\<close>). The status code in the detail is in decimal notation.
\<close>

theorem delete_failure_isolated:
  assumes fields: "map (\<lambda>f. (f ''uid'', f ''title'')) folders
                     = map (\<lambda>(uid, title). (Some uid, Some title)) items"
    and len_answers: "length answers = length items"
    and len_worlds: "length worlds = Suc (length items)"
    and start: "worlds ! 0 = world st"
    and calls: "\<forall>i < length items.
                  requests_delete c (b @ ''/api/folders/'' @ fst (items ! i)) h (worlds ! i)
                    = (answers ! i, worlds ! Suc i)"
    and k: "k < length items"
    and failing: "(answers ! k = RequestException e
                 \<and> failure = ''Error deleting folder '' @ snd (items ! k) @ '': '' @ e)
              \<or> (answers ! k = Returned r \<and> status_code r \<noteq> 200
                 \<and> failure = ''Failed to delete '' @ snd (items ! k) @ '': ''
                                @ str_int (status_code r) @ '' - '' @ resp_text r)"
    and others: "\<forall>i < length items. i \<noteq> k \<longrightarrow>
                   (\<exists>ok. answers ! i = Returned ok \<and> status_code ok = 200)"
  shows "fst (delete_loop c b h folders st) = Inr ()
       \<and> emitted st (snd (delete_loop c b h folders st)) = concat (map (\<lambda>((uid, title), line).
             [Print (''Deleting folder: '' @ title @ '' (uid: '' @ uid @ '') ...''),
              Delete (b @ ''/api/folders/'' @ uid) h,
              Print line])
            (zip items ((map (\<lambda>(uid, title). ''Successfully deleted '' @ title) items)[k := failure])))
       \<and> world (snd (delete_loop c b h folders st)) = worlds ! length items
       \<and> read_int (str_int (status_code r)) = Some (status_code r)"
proof -
  let ?lines = "(map (\<lambda>(uid, title). ''Successfully deleted '' @ title) items)[k := failure]"
  have len_lines: "length ?lines = length items"
    by simp
  have failed: "report (snd (items ! k)) (answers ! k) = Inr failure"
    using failing
  proof
    assume "answers ! k = RequestException e
                 \<and> failure = ''Error deleting folder '' @ snd (items ! k) @ '': '' @ e"
    then show ?thesis by (simp add: report_def)
  next
    assume "answers ! k = Returned r \<and> status_code r \<noteq> 200
                 \<and> failure = ''Failed to delete '' @ snd (items ! k) @ '': ''
                                @ str_int (status_code r) @ '' - '' @ resp_text r"
    then show ?thesis by (simp add: report_def)
  qed
  have reports: "\<forall>i < length items. report (snd (items ! i)) (answers ! i) = Inr (?lines ! i)"
  proof (intro allI impI)
    fix i assume i: "i < length items"
    show "report (snd (items ! i)) (answers ! i) = Inr (?lines ! i)"
    proof (cases "i = k")
      case True
      then show ?thesis using failed i by simp
    next
      case False
      then obtain ok where "answers ! i = Returned ok" "status_code ok = 200"
        using others i by blast
      moreover have "?lines ! i = ''Successfully deleted '' @ snd (items ! i)"
        using False i by (simp add: case_prod_beta)
      ultimately show ?thesis by (simp add: report_def)
    qed
  qed
  have run: "fst (delete_loop c b h folders st) = Inr ()
       \<and> trace (snd (delete_loop c b h folders st)) = trace st @ concat (map (\<lambda>((uid, title), line).
             [Print (''Deleting folder: '' @ title @ '' (uid: '' @ uid @ '') ...''),
              Delete (b @ ''/api/folders/'' @ uid) h,
              Print line]) (zip items ?lines))
       \<and> world (snd (delete_loop c b h folders st)) = worlds ! length items"
    using fields len_answers len_worlds len_lines start calls reports by (rule delete_loop_reached)
  then have "emitted st (snd (delete_loop c b h folders st)) = concat (map (\<lambda>((uid, title), line).
             [Print (''Deleting folder: '' @ title @ '' (uid: '' @ uid @ '') ...''),
              Delete (b @ ''/api/folders/'' @ uid) h,
              Print line]) (zip items ?lines))"
    by (intro emitted_eq) (rule conjunct1 [OF conjunct2])
  moreover have "fst (delete_loop c b h folders st) = Inr ()"
    using run by (rule conjunct1)
  moreover have "world (snd (delete_loop c b h folders st)) = worlds ! length items"
    using run by (rule conjunct2 [OF conjunct2])
  moreover have "read_int (str_int (status_code r)) = Some (status_code r)"
    by (rule read_int_str_int)
  ultimately show ?thesis by (intro conjI)
qed

text \<open>
  A concrete run for C4, against a server that answers 403 to the second DELETE it receives,
  whatever the URL, and 200 to the others.
\<close>

theorem delete_failure_isolated_witness:
  "emitted (configured ''http://grafana:3000'' ''glsa_1'')
     (snd (delete_loop
        (sequenced_client (listing_of [])
           (\<lambda>served. if served = 1 then status 403 ''forbidden'' else status 200 ''{}''))
        ''http://grafana:3000'' (make_headers ''glsa_1'')
        [folder_of ''b2'' ''Team'', folder_of ''x'' ''Temp'', folder_of ''c3'' ''Alerts'']
        (configured ''http://grafana:3000'' ''glsa_1'')))
   = [Print ''Deleting folder: Team (uid: b2) ...'',
      Delete ''http://grafana:3000/api/folders/b2'' (make_headers ''glsa_1''),
      Print ''Successfully deleted Team'',
      Print ''Deleting folder: Temp (uid: x) ...'',
      Delete ''http://grafana:3000/api/folders/x'' (make_headers ''glsa_1''),
      Print ''Failed to delete Temp: 403 - forbidden'',
      Print ''Deleting folder: Alerts (uid: c3) ...'',
      Delete ''http://grafana:3000/api/folders/c3'' (make_headers ''glsa_1''),
      Print ''Successfully deleted Alerts'']"
proof -
  let ?c = "sequenced_client (listing_of [])
           (\<lambda>served. if served = 1 then status 403 ''forbidden'' else status 200 ''{}'')"
  let ?st = "configured ''http://grafana:3000'' ''glsa_1''"
  let ?folders = "[folder_of ''b2'' ''Team'', folder_of ''x'' ''Temp'', folder_of ''c3'' ''Alerts'']"
  let ?items = "[(''b2'', ''Team''), (''x'', ''Temp''), (''c3'', ''Alerts'')]"
  let ?r = "\<lparr>status_code = 403, resp_text = ''forbidden''\<rparr>"
  let ?ok = "\<lparr>status_code = 200, resp_text = ''{}''\<rparr>"
  let ?answers = "[Returned ?ok, Returned ?r, Returned ?ok]"
  let ?worlds = "[0, 1, 2, 3 :: nat]"
  let ?failure = "''Failed to delete '' @ snd (?items ! 1) @ '': '' @ str_int (status_code ?r)
                    @ '' - '' @ resp_text ?r"
  have fields: "map (\<lambda>f. (f ''uid'', f ''title'')) ?folders
                  = map (\<lambda>(uid, title). (Some uid, Some title)) ?items"
    by (simp add: folder_of_def)
  have len_answers: "length ?answers = length ?items"
    and len_worlds: "length ?worlds = Suc (length ?items)"
    and start: "?worlds ! 0 = world ?st"
    and k: "1 < length ?items"
    by (simp_all add: configured_def)
  have calls: "\<forall>i < length ?items.
                  requests_delete ?c (''http://grafana:3000'' @ ''/api/folders/'' @ fst (?items ! i))
                    (make_headers ''glsa_1'') (?worlds ! i) = (?answers ! i, ?worlds ! Suc i)"
    by (simp add: sequenced_client_def status_def less_Suc_eq numeral_3_eq_3)
  have failing: "(?answers ! 1 = RequestException []
                 \<and> ?failure = ''Error deleting folder '' @ snd (?items ! 1) @ '': '' @ [])
              \<or> (?answers ! 1 = Returned ?r \<and> status_code ?r \<noteq> 200 \<and> ?failure = ?failure)"
    by simp
  have others: "\<forall>i < length ?items. i \<noteq> 1 \<longrightarrow>
                   (\<exists>ok. ?answers ! i = Returned ok \<and> status_code ok = 200)"
    by (simp add: less_Suc_eq numeral_3_eq_3)
  show ?thesis
    using delete_failure_isolated [OF fields len_answers len_worlds start calls k failing others]
    by (simp add: str_int_def str_nat.simps)
qed

subsection \<open>C5\<close>

text \<open>
  Claim C5: the Authorization header is the credential itself when the credential starts
  with "Basic" or "Bearer", and "Bearer " followed by the credential when neither word
  occurs in it. The test of line 20 is Python's \<^verbatim>\<open>in\<close>, so the credential is also kept
  as it is when one of the two words occurs anywhere in it.
\<close>

theorem authorization_scheme:
  "(prefix ''Basic'' a \<or> prefix ''Bearer'' a \<longrightarrow>
      map_of (make_headers a) ''Authorization'' = Some a)
   \<and> (sublist ''Basic'' a \<or> sublist ''Bearer'' a \<longrightarrow>
      map_of (make_headers a) ''Authorization'' = Some a)
   \<and> (\<not> sublist ''Basic'' a \<and> \<not> sublist ''Bearer'' a \<longrightarrow>
      map_of (make_headers a) ''Authorization'' = Some (''Bearer '' @ a))"
  by (auto simp: make_headers_def authorization_def str_contains_iff dest: prefix_imp_sublist)

text \<open>A concrete run for C5.\<close>

theorem authorization_scheme_witness:
  "prefix ''Basic'' ''Basic YWRtaW46YWRtaW4=''
   \<and> map_of (make_headers ''Basic YWRtaW46YWRtaW4='') ''Authorization'' = Some ''Basic YWRtaW46YWRtaW4=''
   \<and> \<not> sublist ''Basic'' ''glsa_1'' \<and> \<not> sublist ''Bearer'' ''glsa_1''
   \<and> map_of (make_headers ''glsa_1'') ''Authorization'' = Some ''Bearer glsa_1''"
proof -
  have 1: "prefix ''Basic'' ''Basic YWRtaW46YWRtaW4=''"
    by simp
  have 2: "\<not> sublist ''Basic'' ''glsa_1''"
    by (simp add: str_contains_iff [symmetric])
  have 3: "\<not> sublist ''Bearer'' ''glsa_1''"
    by (simp add: str_contains_iff [symmetric])
  have a: "map_of (make_headers ''Basic YWRtaW46YWRtaW4='') ''Authorization'' = Some ''Basic YWRtaW46YWRtaW4=''"
    by (rule mp [OF conjunct1 [OF authorization_scheme]]) (rule disjI1, rule 1)
  have b: "map_of (make_headers ''glsa_1'') ''Authorization'' = Some ''Bearer glsa_1''"
    using mp [OF conjunct2 [OF conjunct2 [OF authorization_scheme [of "''glsa_1''"]]]] 2 3 by simp
  show ?thesis
    by (intro conjI) (rule 1 2 3 a b)+
qed

subsection \<open>C6\<close>

text \<open>
  Claim C6: a DELETE that is answered counts as a success exactly when the status code is
  200. Any other status prints the failure line, made of the title, the status code in
  decimal notation and the body of the response, and the loop goes on with the rest of the
  listing.
\<close>

theorem delete_outcome_by_status:
  assumes "folder ''uid'' = Some uid" and "folder ''title'' = Some title"
    and "requests_delete c (b @ ''/api/folders/'' @ uid) h (world st) = (Returned r, w)"
  shows "delete_loop c b h (folder # rest) st =
           delete_loop c b h rest
             (st\<lparr>trace := trace st @
                [Print (''Deleting folder: '' @ title @ '' (uid: '' @ uid @ '') ...''),
                 Delete (b @ ''/api/folders/'' @ uid) h,
                 Print (if status_code r = 200 then ''Successfully deleted '' @ title
                        else ''Failed to delete '' @ title @ '': '' @ str_int (status_code r)
                             @ '' - '' @ resp_text r)],
              world := w\<rparr>)
       \<and> (report title (Returned r) = Inr (''Successfully deleted '' @ title)
            \<longleftrightarrow> status_code r = 200)
       \<and> read_int (str_int (status_code r)) = Some (status_code r)"
proof -
  let ?line = "if status_code r = 200 then ''Successfully deleted '' @ title
               else ''Failed to delete '' @ title @ '': '' @ str_int (status_code r)
                    @ '' - '' @ resp_text r"
  have rep: "report title (Returned r) = Inr ?line"
    by (simp add: report_def)
  have "delete_folder c b h folder st =
          (Inr (), st\<lparr>trace := trace st @
              [Print (''Deleting folder: '' @ title @ '' (uid: '' @ uid @ '') ...''),
               Delete (b @ ''/api/folders/'' @ uid) h, Print ?line], world := w\<rparr>)"
    using assms rep by (rule delete_folder_step)
  moreover have "report title (Returned r) = Inr (''Successfully deleted '' @ title)
            \<longleftrightarrow> status_code r = 200"
    by (simp add: report_def)
  ultimately show ?thesis by (simp add: read_int_str_int)
qed

text \<open>A concrete run for C6: a 404 for a folder that is already gone.\<close>

theorem delete_outcome_by_status_witness:
  "delete_loop (scripted_client (listing_of []) (\<lambda>url. status 404 ''not found''))
     ''http://grafana:3000'' (make_headers ''glsa_1'') [folder_of ''x'' ''Temp'']
     (configured ''http://grafana:3000'' ''glsa_1'')
   = (Inr (), (configured ''http://grafana:3000'' ''glsa_1'')
        \<lparr>trace := [Print ''Deleting folder: Temp (uid: x) ...'',
                   Delete ''http://grafana:3000/api/folders/x'' (make_headers ''glsa_1''),
                   Print ''Failed to delete Temp: 404 - not found''],
         world := 1\<rparr>)
   \<and> read_int ''404'' = Some 404"
proof -
  let ?c = "scripted_client (listing_of []) (\<lambda>url. status 404 ''not found'')"
  let ?st = "configured ''http://grafana:3000'' ''glsa_1''"
  have uid: "folder_of ''x'' ''Temp'' ''uid'' = Some ''x''"
    and title: "folder_of ''x'' ''Temp'' ''title'' = Some ''Temp''"
    by (simp_all add: folder_of_def)
  have call: "requests_delete ?c (''http://grafana:3000'' @ ''/api/folders/'' @ ''x'')
                (make_headers ''glsa_1'') (world ?st)
              = (Returned \<lparr>status_code = 404, resp_text = ''not found''\<rparr>, 1)"
    by (simp add: scripted_client_def status_def configured_def)
  have digits: "str_int 404 = ''404''"
    by (simp add: str_int_def str_nat.simps)
  show ?thesis
    using delete_outcome_by_status [OF uid title call, of "[]"]
    by (simp add: digits configured_def)
qed

subsection \<open>C7\<close>

text \<open>
  Claim C7: a base URL that ends with "/" loses that one character, any other base URL is
  kept, and this happens before any URL is built: every request of the run, the listing
  first, goes to a URL that starts with the stripped base followed by "/api/folders".
\<close>

theorem trailing_slash_stripped:
  assumes "read_settings st = (Inr (grafana_url, grafana_auth), st1)"
  shows "(endswith grafana_url ''/'' \<longrightarrow> strip_trailing_slash grafana_url @ ''/'' = grafana_url)
       \<and> (\<not> endswith grafana_url ''/'' \<longrightarrow> strip_trailing_slash grafana_url = grafana_url)
       \<and> request_urls (emitted st (snd (clean_folders c st))) \<noteq> []
       \<and> (\<forall>u \<in> set (request_urls (emitted st (snd (clean_folders c st)))).
             prefix (strip_trailing_slash grafana_url @ ''/api/folders'') u)"
proof -
  have "strip_trailing_slash grafana_url @ ''/'' = grafana_url" if "endswith grafana_url ''/''"
  proof -
    from that obtain b where "grafana_url = b @ ''/''"
      by (auto simp: endswith_def suffix_def)
    then show ?thesis using that by (simp add: strip_trailing_slash_def)
  qed
  moreover have "strip_trailing_slash grafana_url = grafana_url" if "\<not> endswith grafana_url ''/''"
    using that by (simp add: strip_trailing_slash_def)
  moreover have "request_urls (emitted st (snd (clean_folders c st))) \<noteq> []
       \<and> (\<forall>u \<in> set (request_urls (emitted st (snd (clean_folders c st)))).
             prefix (strip_trailing_slash grafana_url @ ''/api/folders'') u)"
    using clean_folders_requests [OF assms, of c] by auto
  ultimately show ?thesis by blast
qed

text \<open>A concrete run for C7.\<close>

theorem trailing_slash_stripped_witness:
  "endswith ''http://grafana:3000/'' ''/''
   \<and> strip_trailing_slash ''http://grafana:3000/'' = ''http://grafana:3000''
   \<and> \<not> endswith ''http://grafana:3000'' ''/''
   \<and> strip_trailing_slash ''http://grafana:3000'' = ''http://grafana:3000''
   \<and> request_urls (emitted (configured ''http://grafana:3000/'' ''glsa_1'')
         (snd (clean_folders (scripted_client (listing_of [folder_of ''b2'' ''Team'']) (\<lambda>url. status 200 ''{}''))
                 (configured ''http://grafana:3000/'' ''glsa_1''))))
       = [''http://grafana:3000/api/folders'', ''http://grafana:3000/api/folders/b2'']"
proof -
  let ?c = "scripted_client (listing_of [folder_of ''b2'' ''Team'']) (\<lambda>url. status 200 ''{}'')"
  let ?st = "configured ''http://grafana:3000/'' ''glsa_1''"
  let ?st' = "configured ''http://grafana:3000'' ''glsa_1''"
  have settings: "read_settings ?st = (Inr (''http://grafana:3000/'', ''glsa_1''), snd (read_settings ?st))"
    by (simp add: run_simps)
  have settings': "read_settings ?st' = (Inr (''http://grafana:3000'', ''glsa_1''), snd (read_settings ?st'))"
    by (simp add: run_simps)
  have slash: "endswith ''http://grafana:3000/'' ''/''"
    and no_slash: "\<not> endswith ''http://grafana:3000'' ''/''"
    by (simp_all add: endswith_def suffix_to_prefix)
  have urls: "request_urls (emitted ?st (snd (clean_folders ?c ?st)))
       = [''http://grafana:3000/api/folders'', ''http://grafana:3000/api/folders/b2'']"
    by (simp add: run_simps)
  have "strip_trailing_slash ''http://grafana:3000/'' @ ''/'' = ''http://grafana:3000/''"
    using trailing_slash_stripped [OF settings, of ?c] slash by blast
  then have stripped: "strip_trailing_slash ''http://grafana:3000/'' = ''http://grafana:3000''"
    by simp
  have kept: "strip_trailing_slash ''http://grafana:3000'' = ''http://grafana:3000''"
    using trailing_slash_stripped [OF settings', of ?c] no_slash by blast
  show ?thesis
    by (intro conjI) (rule slash stripped no_slash kept urls)+
qed

subsection \<open>C8\<close>

text \<open>
  Claim C8: a listing that is empty or holds only "General" leads to no delete attempt,
  so a second run after a successful one deletes nothing. On a listing that holds only
  "General" the script sends a DELETE for it; the missing test on the title of claim C1 is
  the cause.
\<close>

theorem general_only_listing_deleted:
  "trace (snd (list_and_delete
      (scripted_client (listing_of [folder_of ''a1'' ''General'']) (\<lambda>url. status 200 ''{}''))
      ''http://grafana:3000'' (make_headers ''glsa_1'')
      (configured ''http://grafana:3000'' ''glsa_1'')))
   = [Get ''http://grafana:3000/api/folders'' (make_headers ''glsa_1''),
      Print ''Found 1 folders.'',
      Print ''Deleting folder: General (uid: a1) ...'',
      Delete ''http://grafana:3000/api/folders/a1'' (make_headers ''glsa_1''),
      Print ''Successfully deleted General'']"
  by (simp add: list_and_delete_def list_folders_def delete_folder_def report_def print_def
      scripted_client_def sequenced_client_def listing_of_def folder_of_def status_def configured_def)

subsection \<open>C9\<close>

text \<open>
  Claim C9: an entry of the listing without \<^verbatim>\<open>uid\<close> or without \<^verbatim>\<open>title\<close> raises a
  \<^verbatim>\<open>KeyError\<close> at line 39 or 40, before the \<^verbatim>\<open>try\<close> of line 43. Nothing catches it:
  \<^verbatim>\<open>clean_folders\<close> ends with that exception in the state \<open>st3\<close> reached after the
  entries before it, so neither the malformed entry nor any entry after it is announced or
  deleted.
\<close>

theorem missing_field_aborts_batch:
  assumes settings: "read_settings st = (Inr (grafana_url, grafana_auth), st1)"
    and listing: "list_folders c (strip_trailing_slash grafana_url) (make_headers grafana_auth) st1
                    = (Inr (Some (pre @ bad # post)), st2)"
    and before: "delete_loop c (strip_trailing_slash grafana_url) (make_headers grafana_auth) pre
                   (print (''Found '' @ str_nat (length (pre @ bad # post)) @ '' folders.'') st2)
                    = (Inr (), st3)"
    and malformed: "bad ''uid'' = None \<or> bad ''title'' = None"
  shows "clean_folders c st =
           (Inl (KeyError (if bad ''uid'' = None then ''uid'' else ''title'')), st3)"
proof -
  let ?b = "strip_trailing_slash grafana_url" and ?h = "make_headers grafana_auth"
  have "delete_loop c ?b ?h (bad # post) st3 =
          (Inl (KeyError (if bad ''uid'' = None then ''uid'' else ''title'')), st3)"
    using delete_folder_key_error [OF malformed, of c ?b ?h st3] by simp
  then have "delete_loop c ?b ?h (pre @ bad # post)
               (print (''Found '' @ str_nat (length (pre @ bad # post)) @ '' folders.'') st2) =
          (Inl (KeyError (if bad ''uid'' = None then ''uid'' else ''title'')), st3)"
    using before by (simp add: delete_loop_append)
  then show ?thesis
    using listing by (simp add: clean_folders_settings [OF settings] list_and_delete_def)
qed

text \<open>A concrete run for C9.\<close>

theorem missing_field_aborts_batch_witness:
  "fst (clean_folders
          (scripted_client
             (listing_of [folder_of ''b2'' ''Team'', [''title'' \<mapsto> ''Orphan''], folder_of ''c3'' ''Alerts''])
             (\<lambda>url. status 200 ''{}''))
          (configured ''http://grafana:3000'' ''glsa_1'')) = Inl (KeyError ''uid'')
   \<and> delete_urls (trace (snd (clean_folders
          (scripted_client
             (listing_of [folder_of ''b2'' ''Team'', [''title'' \<mapsto> ''Orphan''], folder_of ''c3'' ''Alerts''])
             (\<lambda>url. status 200 ''{}''))
          (configured ''http://grafana:3000'' ''glsa_1''))))
       = [''http://grafana:3000/api/folders/b2'']"
proof -
  let ?bad = "[''title'' \<mapsto> ''Orphan''] :: folder"
  let ?c = "scripted_client
             (listing_of [folder_of ''b2'' ''Team'', ?bad, folder_of ''c3'' ''Alerts''])
             (\<lambda>url. status 200 ''{}'')"
  let ?st = "configured ''http://grafana:3000'' ''glsa_1''"
  let ?b = "strip_trailing_slash ''http://grafana:3000''" and ?h = "make_headers ''glsa_1''"
  let ?st1 = "snd (read_settings ?st)"
  let ?st2 = "snd (list_folders ?c ?b ?h ?st1)"
  let ?st3 = "snd (delete_loop ?c ?b ?h [folder_of ''b2'' ''Team'']
                (print (''Found '' @ str_nat (length ([folder_of ''b2'' ''Team''] @ ?bad # [folder_of ''c3'' ''Alerts''])) @ '' folders.'') ?st2))"
  have settings: "read_settings ?st = (Inr (''http://grafana:3000'', ''glsa_1''), ?st1)"
    by (simp add: run_simps)
  have listing: "list_folders ?c ?b ?h ?st1
                   = (Inr (Some ([folder_of ''b2'' ''Team''] @ ?bad # [folder_of ''c3'' ''Alerts''])), ?st2)"
    by (simp add: run_simps)
  have before: "delete_loop ?c ?b ?h [folder_of ''b2'' ''Team'']
                (print (''Found '' @ str_nat (length ([folder_of ''b2'' ''Team''] @ ?bad # [folder_of ''c3'' ''Alerts''])) @ '' folders.'') ?st2)
                 = (Inr (), ?st3)"
    by (simp add: run_simps)
  have malformed: "?bad ''uid'' = None \<or> ?bad ''title'' = None"
    by simp
  have trace3: "delete_urls (trace ?st3) = [''http://grafana:3000/api/folders/b2'']"
    by (simp add: run_simps)
  show ?thesis
    using missing_field_aborts_batch [OF settings listing before malformed] trace3
    by simp
qed

subsection \<open>C10\<close>

text \<open>
  Claim C10: the headers are built once, from the credential, with the content type
  "application/json"; the listing request and every DELETE request of the run carry exactly
  these headers.
\<close>

theorem headers_shared_by_requests:
  assumes "read_settings st = (Inr (grafana_url, grafana_auth), st1)"
  shows "request_headers (emitted st (snd (clean_folders c st))) \<noteq> []
       \<and> (\<forall>h \<in> set (request_headers (emitted st (snd (clean_folders c st)))).
             h = [(''Content-Type'', ''application/json''),
                  (''Authorization'', authorization grafana_auth)])"
  using clean_folders_requests [OF assms, of c] by (auto simp: make_headers_def)

text \<open>A concrete run for C10.\<close>

theorem headers_shared_by_requests_witness:
  "request_headers (emitted (configured ''http://grafana:3000/'' ''glsa_1'')
         (snd (clean_folders
                 (scripted_client (listing_of [folder_of ''b2'' ''Team'', folder_of ''c3'' ''Alerts''])
                    (\<lambda>url. status 200 ''{}''))
                 (configured ''http://grafana:3000/'' ''glsa_1''))))
       = [[(''Content-Type'', ''application/json''), (''Authorization'', ''Bearer glsa_1'')],
          [(''Content-Type'', ''application/json''), (''Authorization'', ''Bearer glsa_1'')],
          [(''Content-Type'', ''application/json''), (''Authorization'', ''Bearer glsa_1'')]]"
proof -
  let ?c = "scripted_client (listing_of [folder_of ''b2'' ''Team'', folder_of ''c3'' ''Alerts''])
              (\<lambda>url. status 200 ''{}'')"
  let ?st = "configured ''http://grafana:3000/'' ''glsa_1''"
  have settings: "read_settings ?st = (Inr (''http://grafana:3000/'', ''glsa_1''), snd (read_settings ?st))"
    by (simp add: run_simps)
  have len: "length (request_headers (emitted ?st (snd (clean_folders ?c ?st)))) = 3"
    by (simp add: run_simps)
  have auth: "authorization ''glsa_1'' = ''Bearer glsa_1''"
    by (simp add: authorization_def)
  have all: "\<forall>h \<in> set (request_headers (emitted ?st (snd (clean_folders ?c ?st)))).
               h = [(''Content-Type'', ''application/json''), (''Authorization'', ''Bearer glsa_1'')]"
    using headers_shared_by_requests [OF settings, of ?c] auth by simp
  obtain h1 h2 h3 where hs: "request_headers (emitted ?st (snd (clean_folders ?c ?st))) = [h1, h2, h3]"
    using len by (auto simp: length_Suc_conv numeral_3_eq_3)
  show ?thesis
    using all unfolding hs by simp
qed

end
